theory Spec2Isabelle
  imports Complex_Main "HOL-Library.Word"
begin

section \<open>The libraries the module calls\<close>

text \<open>
  The module \<open>pathed\<close> reads the filesystem through \<open>os\<close> and \<open>os.path\<close> and hashes
  file contents with \<open>blake3\<close>. Neither library belongs to the repository, so the calls
  the module makes are the fields of an environment: one value of \<open>env\<close> is one state
  of the filesystem, and an edit of the filesystem is a different \<open>env\<close>. The calls are
  total here: a call of \<open>os\<close> that itself raises (a vanished path, a missing
  permission) is outside the model. Timestamps are the numbers \<open>os.path.getmtime\<close>
  returns; the module only compares them for equality.
\<close>

type_synonym byte = "8 word"

record env =
  isdir :: "string \<Rightarrow> bool"
  isfile :: "string \<Rightarrow> bool"
  listdir :: "string \<Rightarrow> string list"
  abspath :: "string \<Rightarrow> string"
  getctime :: "string \<Rightarrow> real"
  getmtime :: "string \<Rightarrow> real"
  getsize :: "string \<Rightarrow> int"
  read_file :: "string \<Rightarrow> byte list"
  blake3_hexdigest :: "byte list \<Rightarrow> string"

text \<open>\<open>os.path.join(a, b)\<close> of two components and \<open>s.split(os.sep)[-1]\<close>, for
  \<open>os.sep = '/'\<close>.\<close>

definition path_join :: "string \<Rightarrow> string \<Rightarrow> string" where
  "path_join a b =
     (if b \<noteq> [] \<and> hd b = CHR ''/'' then b
      else if a = [] \<or> last a = CHR ''/'' then a @ b
      else a @ ''/'' @ b)"

definition split_last :: "string \<Rightarrow> string" where
  "split_last s = rev (takeWhile (\<lambda>c. c \<noteq> CHR ''/'') (rev s))"

section \<open>Pathed\<close>

datatype error =
    NotADirectoryError string
  | FileExistsError string
  | EnvironmentError string
  | AttributeError string

text \<open>The class of the object under construction, which \<open>Pathed.__init__\<close> inspects
  with \<open>issubclass\<close>. The module defines two concrete classes and neither derives from
  the other.\<close>

datatype pathed_class = Directory_class | File_class

definition issubclass :: "pathed_class \<Rightarrow> pathed_class \<Rightarrow> bool" where
  "issubclass c d = (c = d)"

text \<open>The attributes \<open>Pathed.__init__\<close> sets. The parent object is kept as its path:
  the reference is a back pointer that no method follows.\<close>

record Pathed =
  parent :: "string option"
  path :: string
  name :: string
  last_refreshed :: real
  is_dir :: bool
  is_file :: bool
  created_at :: real
  last_modified :: real
  hash_files :: bool

definition Pathed_init ::
  "env \<Rightarrow> pathed_class \<Rightarrow> string \<Rightarrow> (string \<Rightarrow> bool) \<Rightarrow> (string \<Rightarrow> error) \<Rightarrow>
   string option \<Rightarrow> bool \<Rightarrow> error + Pathed" where
  "Pathed_init e cls p path_method path_error par hf =
     (if \<not> path_method p then Inl (path_error p)
      else
        let ap = abspath e p in
        Inr \<lparr>parent = par, path = ap, name = split_last ap, last_refreshed = - 1,
             is_dir = issubclass cls Directory_class,
             is_file = issubclass cls File_class,
             created_at = getctime e ap, last_modified = getmtime e ap,
             hash_files = hf\<rparr>)"

text \<open>\<open>Pathed.refresh\<close>: the result and the object after the call.\<close>

definition Pathed_refresh :: "env \<Rightarrow> Pathed \<Rightarrow> bool \<times> Pathed" where
  "Pathed_refresh e b =
     (let file_last_modified = getmtime e (path b);
          refreshed = (last_modified b \<noteq> file_last_modified)
      in (refreshed, if refreshed then b\<lparr>last_modified := file_last_modified\<rparr> else b))"

section \<open>File\<close>

text \<open>\<open>__hash_file\<close> returns the hex digest, a \<open>str\<close>, or \<open>b''\<close>, a \<open>bytes\<close> object, which
  Python never finds equal to a \<open>str\<close>.\<close>

datatype hashval = Hexdigest string | Empty_bytes

text \<open>\<open>__init__\<close> only annotates \<open>__filesize\<close> and \<open>__hash\<close>; an attribute that was never
  assigned is \<open>None\<close> here, and reading it raises \<open>AttributeError\<close>.\<close>

record File =
  file_base :: Pathed
  filesize :: "int option"
  hash :: "hashval option"

definition hash_file :: "env \<Rightarrow> File \<Rightarrow> hashval" where
  "hash_file e f =
     (let contents = read_file e (path (file_base f))
      in if length contents > 0 then Hexdigest (blake3_hexdigest e contents) else Empty_bytes)"

definition calculate_hash_and_size :: "env \<Rightarrow> File \<Rightarrow> File" where
  "calculate_hash_and_size e f =
     (let f1 = (if hash_files (file_base f) then f\<lparr>hash := Some (hash_file e f)\<rparr> else f)
      in f1\<lparr>filesize := Some (getsize e (path (file_base f1)))\<rparr>)"

text \<open>\<open>File.__init__(path, parent_dir)\<close> has no \<open>hash_files\<close> parameter and passes none
  to \<open>Pathed.__init__\<close>, whose default is \<open>False\<close>.\<close>

definition File_init :: "env \<Rightarrow> string \<Rightarrow> string option \<Rightarrow> error + File" where
  "File_init e p parent_dir =
     (case Pathed_init e File_class p (isfile e) FileExistsError parent_dir False of
        Inl err \<Rightarrow> Inl err
      | Inr b \<Rightarrow> Inr (calculate_hash_and_size e \<lparr>file_base = b, filesize = None, hash = None\<rparr>))"

text \<open>The property \<open>hash\<close>: what the read returns or raises, and the object after it.\<close>

definition File_hash :: "env \<Rightarrow> File \<Rightarrow> (error + hashval) \<times> File" where
  "File_hash e f =
     (let f1 = calculate_hash_and_size e f
      in case hash f1 of
           None \<Rightarrow> (Inl (AttributeError ''_File__hash''), f1)
         | Some v \<Rightarrow> (Inr v, f1))"

definition File_refresh :: "env \<Rightarrow> File \<Rightarrow> (error + bool) \<times> File" where
  "File_refresh e f =
     (case Pathed_refresh e (file_base f) of (refreshed, b) \<Rightarrow>
        let f1 = f\<lparr>file_base := b\<rparr> in
        if hash_files b then
          (case hash f1 of
             None \<Rightarrow> (Inl (AttributeError ''_File__hash''), f1)
           | Some old_hash \<Rightarrow>
               let f2 = calculate_hash_and_size e f1
               in (Inr (if Some old_hash \<noteq> hash f2 then True else refreshed), f2))
        else (Inr refreshed, f1))"

section \<open>Directory\<close>

datatype Directory =
  Directory (dir_base: Pathed) (sub_dirs: "Directory list") (files: "File list")
            (empty: bool) (recursive: bool) (recursive_depth: int)

text \<open>The module's global \<open>file_count\<close>, and the values \<open>print\<close> has written.\<close>

record globals =
  file_count :: int
  printed :: "int list"

text \<open>
  \<open>Directory.__init__\<close>, \<open>__populate\<close> and the \<open>for\<close> loop of \<open>__populate\<close> over the
  entries still to visit. \<open>__init__\<close> accepts \<open>hash_files\<close> but calls
  \<open>super().__init__(path, os.path.isdir, NotADirectoryError, parent_dir)\<close>, so the
  flag of the node is the default \<open>False\<close> of \<open>Pathed.__init__\<close>. An exception leaves the
  global counter as it was when it was raised.
\<close>

function Directory_init ::
    "env \<Rightarrow> string \<Rightarrow> string option \<Rightarrow> bool \<Rightarrow> bool \<Rightarrow> int \<Rightarrow> globals \<Rightarrow>
     (error + Directory) \<times> globals"
  and populate :: "env \<Rightarrow> Directory \<Rightarrow> globals \<Rightarrow> (error + Directory) \<times> globals"
  and populate_loop ::
    "env \<Rightarrow> Directory \<Rightarrow> string list \<Rightarrow> globals \<Rightarrow> (error + Directory) \<times> globals"
where
  "Directory_init e p parent_dir hf rec depth g =
     (case Pathed_init e Directory_class p (isdir e) NotADirectoryError parent_dir False of
        Inl err \<Rightarrow> (Inl err, g)
      | Inr b \<Rightarrow> populate e (Directory b [] [] False rec depth) g)"
| "populate e (Directory b sds fs em rec depth) g =
     (let items = listdir e (path b)
      in populate_loop e (Directory b sds fs (if length items = 0 then True else em) rec depth)
           items g)"
| "populate_loop e self [] g = (Inr self, g)"
| "populate_loop e (Directory b sds fs em rec depth) (item # items) g =
     (let item_path = path_join (path b) item in
      if isdir e item_path then
        if depth \<ge> 0 then
          (case Directory_init e item_path (Some (path b)) (hash_files b) rec (depth - 1) g of
             (Inl err, g') \<Rightarrow> (Inl err, g')
           | (Inr sub_dir, g') \<Rightarrow>
               populate_loop e (Directory b (sds @ [sub_dir]) fs em rec depth) items g')
        else populate_loop e (Directory b sds fs em rec depth) items g
      else if isfile e item_path then
        (case File_init e item_path (Some (path b)) of
           Inl err \<Rightarrow> (Inl err, g)
         | Inr f \<Rightarrow>
             let g1 = g\<lparr>file_count := file_count g + 1\<rparr>;
                 g2 = g1\<lparr>printed := printed g1 @ [file_count g1]\<rparr>
             in populate_loop e (Directory b sds (fs @ [f]) em rec depth) items g2)
      else (Inl (EnvironmentError (''Unknown Directory Element: '' @ item_path)), g))"
  by pat_completeness auto
termination
  by (relation "measures
        [\<lambda>x. case x of
               Inl (e, p, parent_dir, hf, rec, depth, g) \<Rightarrow> nat (depth + 1)
             | Inr (Inl (e, self, g)) \<Rightarrow> nat (recursive_depth self + 1)
             | Inr (Inr (e, self, items, g)) \<Rightarrow> nat (recursive_depth self + 1),
         \<lambda>x. case x of
               Inl (e, p, parent_dir, hf, rec, depth, g) \<Rightarrow> 2
             | Inr (Inl (e, self, g)) \<Rightarrow> 1
             | Inr (Inr (e, self, items, g)) \<Rightarrow> 0,
         \<lambda>x. case x of
               Inl (e, p, parent_dir, hf, rec, depth, g) \<Rightarrow> 0
             | Inr (Inl (e, self, g)) \<Rightarrow> 0
             | Inr (Inr (e, self, items, g)) \<Rightarrow> length items]")
     auto

text \<open>
  \<open>Directory.refresh\<close>. In \<open>refreshed = refreshed or x.refresh()\<close> Python evaluates
  \<open>x.refresh()\<close> only when \<open>refreshed\<close> is false.
\<close>

fun refresh_files :: "env \<Rightarrow> bool \<Rightarrow> File list \<Rightarrow> (error + bool) \<times> File list" where
  "refresh_files e refreshed [] = (Inr refreshed, [])"
| "refresh_files e refreshed (f # rest) =
     (if refreshed then
        (case refresh_files e refreshed rest of (res, rest') \<Rightarrow> (res, f # rest'))
      else
        (case File_refresh e f of
           (Inl err, f') \<Rightarrow> (Inl err, f' # rest)
         | (Inr r, f') \<Rightarrow>
             (case refresh_files e r rest of (res, rest') \<Rightarrow> (res, f' # rest'))))"

fun Directory_refresh :: "env \<Rightarrow> Directory \<Rightarrow> (error + bool) \<times> Directory"
  and refresh_sub_dirs ::
    "env \<Rightarrow> bool \<Rightarrow> Directory list \<Rightarrow> (error + bool) \<times> Directory list"
where
  "Directory_refresh e (Directory b sds fs em rec depth) =
     (case Pathed_refresh e b of (refreshed, b') \<Rightarrow>
        (case refresh_sub_dirs e refreshed sds of
           (Inl err, sds') \<Rightarrow> (Inl err, Directory b' sds' fs em rec depth)
         | (Inr refreshed', sds') \<Rightarrow>
             (case refresh_files e refreshed' fs of
                (res, fs') \<Rightarrow> (res, Directory b' sds' fs' em rec depth))))"
| "refresh_sub_dirs e refreshed [] = (Inr refreshed, [])"
| "refresh_sub_dirs e refreshed (sub_dir # rest) =
     (if refreshed then
        (case refresh_sub_dirs e refreshed rest of (res, rest') \<Rightarrow> (res, sub_dir # rest'))
      else
        (case Directory_refresh e sub_dir of
           (Inl err, sub_dir') \<Rightarrow> (Inl err, sub_dir' # rest)
         | (Inr r, sub_dir') \<Rightarrow>
             (case refresh_sub_dirs e r rest of (res, rest') \<Rightarrow> (res, sub_dir' # rest'))))"

section \<open>Notions used to state the properties\<close>

text \<open>The result of a construction with a function applied to the tree it built.\<close>

definition on_result ::
  "(Directory \<Rightarrow> Directory) \<Rightarrow> (error + Directory) \<times> globals \<Rightarrow> (error + Directory) \<times> globals"
  where
  "on_result f res =
     (case res of (Inl err, g) \<Rightarrow> (Inl err, g) | (Inr d, g) \<Rightarrow> (Inr (f d), g))"

text \<open>The tree with the stored attribute \<open>__recursive\<close> of every directory overwritten.\<close>

fun set_recursive :: "bool \<Rightarrow> Directory \<Rightarrow> Directory" where
  "set_recursive r (Directory b sds fs em rec depth) =
     Directory b (map (set_recursive r) sds) fs em r depth"

text \<open>The pair \<open>(is_dir, is_file)\<close> of a file, and of every node of a tree.\<close>

definition file_kind :: "File \<Rightarrow> bool \<times> bool" where
  "file_kind f = (is_dir (file_base f), is_file (file_base f))"

datatype kind_tree = Kind_tree bool bool "kind_tree list" "(bool \<times> bool) list"

fun kinds_of :: "Directory \<Rightarrow> kind_tree" where
  "kinds_of (Directory b sds fs em rec depth) =
     Kind_tree (is_dir b) (is_file b) (map kinds_of sds) (map file_kind fs)"

text \<open>Every directory of the tree is tagged as a directory only, every file as a file
  only.\<close>

fun kinds_ok :: "Directory \<Rightarrow> bool" where
  "kinds_ok (Directory b sds fs em rec depth) =
     (is_dir b \<and> \<not> is_file b \<and> list_all (\<lambda>f. file_kind f = (False, True)) fs \<and>
      list_all kinds_ok sds)"

text \<open>A property of every directory node and a property of every file of a tree.\<close>

fun all_nodes :: "(Pathed \<Rightarrow> bool) \<Rightarrow> (File \<Rightarrow> bool) \<Rightarrow> Directory \<Rightarrow> bool" where
  "all_nodes PD PF (Directory b sds fs em rec depth) =
     (PD b \<and> list_all PF fs \<and> list_all (all_nodes PD PF) sds)"

text \<open>No node of the tree has the flag \<open>hash_files\<close> and no file has a hash.\<close>

definition unhashed :: "Directory \<Rightarrow> bool" where
  "unhashed = all_nodes (\<lambda>b. hash_files b = False)
                (\<lambda>f. hash_files (file_base f) = False \<and> hash f = None)"

text \<open>Every node of the tree stores the modification time that the filesystem reports for
  its path.\<close>

definition synced :: "env \<Rightarrow> Directory \<Rightarrow> bool" where
  "synced e = all_nodes (\<lambda>b. last_modified b = getmtime e (path b))
                (\<lambda>f. last_modified (file_base f) = getmtime e (path (file_base f)))"

section \<open>A small filesystem\<close>

text \<open>
  The directory \<open>/r\<close> holds the directory \<open>a\<close> and the file \<open>f\<close> with the two bytes
  \<open>hi\<close>; \<open>/r/a\<close> holds the empty directory \<open>b\<close>. Every timestamp is 1. The digest
  function is a stand-in: no statement below depends on its values.
\<close>

definition fs0 :: env where
  "fs0 = \<lparr>isdir = (\<lambda>p. p = ''/r'' \<or> p = ''/r/a'' \<or> p = ''/r/a/b''),
          isfile = (\<lambda>p. p = ''/r/f''),
          listdir = (\<lambda>p. if p = ''/r'' then [''a'', ''f'']
                          else if p = ''/r/a'' then [''b''] else []),
          abspath = (\<lambda>p. p),
          getctime = (\<lambda>p. 1),
          getmtime = (\<lambda>p. 1),
          getsize = (\<lambda>p. if p = ''/r/f'' then 2 else 4096),
          read_file = (\<lambda>p. if p = ''/r/f'' then [0x68, 0x69] else []),
          blake3_hexdigest = (\<lambda>bs. ''00'')\<rparr>"

text \<open>The same filesystem after \<open>/r/f\<close> was replaced by another file of three bytes
  (one rename into \<open>/r\<close>): the modification times of \<open>/r\<close> and of \<open>/r/f\<close> are now 2.\<close>

definition fs1 :: env where
  "fs1 = fs0\<lparr>getmtime := (\<lambda>p. if p = ''/r'' \<or> p = ''/r/f'' then 2 else 1),
              getsize := (\<lambda>p. if p = ''/r/f'' then 3 else 4096),
              read_file := (\<lambda>p. if p = ''/r/f'' then [0x68, 0x65, 0x79] else [])\<rparr>"

text \<open>The filesystem \<open>fs0\<close> with a socket \<open>s\<close> in \<open>/r\<close>, listed between \<open>f\<close> and \<open>a\<close>.\<close>

definition fs_sock :: env where
  "fs_sock = fs0\<lparr>listdir := (\<lambda>p. if p = ''/r'' then [''f'', ''s'', ''a'']
                                 else if p = ''/r/a'' then [''b''] else [])\<rparr>"

text \<open>The filesystem \<open>fs0\<close> after \<open>/r/f\<close> was truncated to no bytes.\<close>

definition fs_trunc :: env where
  "fs_trunc = fs0\<lparr>getsize := (\<lambda>p. if p = ''/r/f'' then 0 else 4096),
                    read_file := (\<lambda>p. [])\<rparr>"

definition g0 :: globals where
  "g0 = \<lparr>file_count = 0, printed = []\<rparr>"

text \<open>The nodes that the constructor builds on \<open>fs0\<close> for \<open>/r/a\<close>, \<open>/r/f\<close> and \<open>/r\<close>.\<close>

definition dir_r_a :: Directory where
  "dir_r_a =
     Directory \<lparr>parent = Some ''/r'', path = ''/r/a'', name = ''a'', last_refreshed = - 1,
                is_dir = True, is_file = False, created_at = 1, last_modified = 1,
                hash_files = False\<rparr>
       [] [] False False (- 1)"

definition file_r_f :: File where
  "file_r_f =
     \<lparr>file_base =
        \<lparr>parent = Some ''/r'', path = ''/r/f'', name = ''f'', last_refreshed = - 1,
         is_dir = False, is_file = True, created_at = 1, last_modified = 1,
         hash_files = False\<rparr>,
      filesize = Some 2, hash = None\<rparr>"

definition base_r :: Pathed where
  "base_r =
     \<lparr>parent = None, path = ''/r'', name = ''r'', last_refreshed = - 1,
      is_dir = True, is_file = False, created_at = 1, last_modified = 1,
      hash_files = False\<rparr>"

definition dir_r :: Directory where
  "dir_r = Directory base_r [dir_r_a] [file_r_f] False False 0"

text \<open>The tree \<open>dir_r\<close> with the new modification time stored in the root only, and with
  the new modification time stored in the root and in the file.\<close>

definition dir_r_stale :: Directory where
  "dir_r_stale = Directory (base_r\<lparr>last_modified := 2\<rparr>) [dir_r_a] [file_r_f] False False 0"

definition dir_r_fresh :: Directory where
  "dir_r_fresh =
     Directory (base_r\<lparr>last_modified := 2\<rparr>) [dir_r_a]
       [file_r_f\<lparr>file_base := (file_base file_r_f)\<lparr>last_modified := 2\<rparr>\<rparr>] False False 0"

section \<open>Evaluation on the small filesystem\<close>

lemmas eval_defs = Pathed_init_def File_init_def calculate_hash_and_size_def path_join_def
  split_last_def issubclass_def Let_def Pathed_refresh_def File_refresh_def File_hash_def
  hash_file_def

lemmas data_defs = fs0_def fs1_def fs_sock_def fs_trunc_def g0_def dir_r_def dir_r_a_def
  file_r_f_def base_r_def dir_r_stale_def dir_r_fresh_def

section \<open>What the scan builds\<close>

lemma Pathed_init_path:
  "Pathed_init e cls p m err par hf = Inr b \<Longrightarrow> path b = abspath e p"
  by (auto simp: Pathed_init_def Let_def split: if_splits)

lemma File_init_path: "File_init e p par = Inr f \<Longrightarrow> path (file_base f) = abspath e p"
  by (auto simp: File_init_def calculate_hash_and_size_def Let_def
           dest: Pathed_init_path split: sum.splits)

lemma populate_loop_fields:
  "populate_loop e self items g = (Inr d, g') \<Longrightarrow>
     dir_base d = dir_base self \<and> empty d = empty self \<and>
     recursive d = recursive self \<and> recursive_depth d = recursive_depth self"
proof (induction items arbitrary: self g)
  case Nil
  then show ?case by simp
next
  case (Cons item items)
  obtain b sds fs em r depth where self: "self = Directory b sds fs em r depth"
    by (cases self)
  from Cons.prems show ?case
    unfolding self
    by (auto simp: Let_def split: if_splits sum.splits prod.splits dest!: Cons.IH)
qed

text \<open>A construction that succeeds has validated the path and run the loop over the
  whole listing.\<close>

lemma Directory_init_loop:
  assumes "Directory_init e p parent_dir hf rec depth g = (Inr d, g')"
  obtains b where
    "Pathed_init e Directory_class p (isdir e) NotADirectoryError parent_dir False = Inr b"
    "path b = abspath e p"
    "populate_loop e
       (Directory b [] [] (if length (listdir e (path b)) = 0 then True else False) rec depth)
       (listdir e (path b)) g = (Inr d, g')"
proof -
  from assms obtain b where
    b: "Pathed_init e Directory_class p (isdir e) NotADirectoryError parent_dir False = Inr b"
    and loop: "populate_loop e
                 (Directory b [] [] (if length (listdir e (path b)) = 0 then True else False)
                    rec depth)
                 (listdir e (path b)) g = (Inr d, g')"
    by (auto simp: Let_def split: sum.splits)
  have "path b = abspath e p"
    using b by (rule Pathed_init_path)
  with b loop that show thesis
    by blast
qed

lemma Directory_init_fields:
  assumes "Directory_init e p parent_dir hf rec depth g = (Inr d, g')"
  shows "path (dir_base d) = abspath e p" "recursive d = rec" "recursive_depth d = depth"
    "empty d = (listdir e (abspath e p) = [])"
proof -
  from assms obtain b where pb: "path b = abspath e p"
    and loop: "populate_loop e
                 (Directory b [] [] (if length (listdir e (path b)) = 0 then True else False)
                    rec depth)
                 (listdir e (path b)) g = (Inr d, g')"
    by (rule Directory_init_loop)
  from populate_loop_fields [OF loop] pb
  show "path (dir_base d) = abspath e p" "recursive d = rec" "recursive_depth d = depth"
    "empty d = (listdir e (abspath e p) = [])"
    by simp_all
qed

lemma populate_loop_children:
  "populate_loop e self items g = (Inr d, g') \<Longrightarrow>
     map (\<lambda>s. path (dir_base s)) (sub_dirs d) =
       map (\<lambda>s. path (dir_base s)) (sub_dirs self) @
       (if 0 \<le> recursive_depth self
        then map (\<lambda>i. abspath e (path_join (path (dir_base self)) i))
               (filter (\<lambda>i. isdir e (path_join (path (dir_base self)) i)) items)
        else []) \<and>
     map (\<lambda>f. path (file_base f)) (files d) =
       map (\<lambda>f. path (file_base f)) (files self) @
       map (\<lambda>i. abspath e (path_join (path (dir_base self)) i))
         (filter (\<lambda>i. \<not> isdir e (path_join (path (dir_base self)) i)) items)"
proof (induction items arbitrary: self g)
  case Nil
  then show ?case by simp
next
  case (Cons item items)
  obtain b sds fs em r depth where self: "self = Directory b sds fs em r depth"
    by (cases self)
  from Cons.prems show ?case
    unfolding self
    apply (simp only: populate_loop.simps Let_def split: if_splits sum.splits prod.splits)
    apply (auto dest!: Cons.IH dest: Directory_init_fields(1) File_init_path simp del: Directory_init.simps)
    done
qed


lemma populate_loop_entries:
  "populate_loop e self items g = (Inr d, g') \<Longrightarrow>
     list_all (\<lambda>i. isdir e (path_join (path (dir_base self)) i) \<or>
                    isfile e (path_join (path (dir_base self)) i)) items"
proof (induction items arbitrary: self g)
  case Nil
  then show ?case by simp
next
  case (Cons item items)
  obtain b sds fs em r depth where self: "self = Directory b sds fs em r depth"
    by (cases self)
  from Cons.prems show ?case
    unfolding self
    apply (simp only: populate_loop.simps Let_def split: if_splits sum.splits prod.splits)
    apply (auto dest!: Cons.IH simp del: Directory_init.simps)
    done
qed

lemma populate_loop_append:
  "populate_loop e self (xs @ ys) g =
     (case populate_loop e self xs g of
        (Inl err, g') \<Rightarrow> (Inl err, g')
      | (Inr s, g') \<Rightarrow> populate_loop e s ys g')"
proof (induction xs arbitrary: self g)
  case Nil
  then show ?case by simp
next
  case (Cons item items)
  obtain b sds fs em r depth where self: "self = Directory b sds fs em r depth"
    by (cases self)
  show ?case
    unfolding self
    by (simp add: Let_def Cons.IH split: sum.splits prod.splits del: Directory_init.simps)
qed

text \<open>A property that the base constructor gives every directory node and the file
  constructor gives every file holds for every node of a tree that was built.\<close>

lemma Directory_init_all_nodes:
  assumes PD: "\<And>p parent_dir b.
      Pathed_init e0 Directory_class p (isdir e0) NotADirectoryError parent_dir False = Inr b
        \<Longrightarrow> PD b"
    and PF: "\<And>p parent_dir f. File_init e0 p parent_dir = Inr f \<Longrightarrow> PF f"
  shows
  "Directory_init e p parent_dir hf rec depth g = (Inr d, g1) \<Longrightarrow> e = e0 \<Longrightarrow>
     all_nodes PD PF d"
  "populate e self g' = (Inr d', g2) \<Longrightarrow> e = e0 \<Longrightarrow> all_nodes PD PF self \<Longrightarrow>
     all_nodes PD PF d'"
  "populate_loop e self' items g'' = (Inr d'', g3) \<Longrightarrow> e = e0 \<Longrightarrow> all_nodes PD PF self' \<Longrightarrow>
     all_nodes PD PF d''"
proof (induction e p parent_dir hf rec depth g and e self g' and e self' items g''
       arbitrary: d g1 and d' g2 and d'' g3
       rule: Directory_init_populate_populate_loop.induct)
  case (1 e p parent_dir hf rec depth g)
  from "1.prems"(1) obtain b where
    b: "Pathed_init e Directory_class p (isdir e) NotADirectoryError parent_dir False = Inr b"
    and pop: "populate e (Directory b [] [] False rec depth) g = (Inr d, g1)"
    by (auto split: sum.splits simp del: populate.simps)
  have "all_nodes PD PF (Directory b [] [] False rec depth)"
    using PD [of p parent_dir b] b "1.prems"(2) by simp
  with "1.IH" [OF b pop "1.prems"(2)] show ?case .
next
  case (2 e b sds fs em rec depth g)
  let ?self = "Directory b sds fs (if length (listdir e (path b)) = 0 then True else em) rec depth"
  have loop: "populate_loop e ?self (listdir e (path b)) g = (Inr d', g2)"
    using "2.prems"(1) by (simp add: Let_def)
  have "all_nodes PD PF ?self"
    using "2.prems"(3) by simp
  with "2.IH" [OF refl loop "2.prems"(2)] show ?case .
next
  case (3 e self g)
  then show ?case by simp
next
  case (4 e b sds fs em rec depth item items g)
  let ?x = "path_join (path b) item"
  from "4.prems"(3) have ok: "PD b" "list_all PF fs" "list_all (all_nodes PD PF) sds"
    by simp_all
  show ?case
  proof (cases "isdir e ?x")
    case dir: True
    show ?thesis
    proof (cases "0 \<le> depth")
      case True
      from "4.prems"(1) dir True obtain sub_dir y where
        call: "Directory_init e ?x (Some (path b)) (hash_files b) rec (depth - 1) g =
                 (Inr sub_dir, y)"
        and rest: "populate_loop e (Directory b (sds @ [sub_dir]) fs em rec depth) items y =
                 (Inr d'', g3)"
        by (auto simp: Let_def split: sum.splits prod.splits simp del: Directory_init.simps)
      have "all_nodes PD PF sub_dir"
        using "4.IH"(1) [OF refl dir True call "4.prems"(2)] .
      with ok have "all_nodes PD PF (Directory b (sds @ [sub_dir]) fs em rec depth)"
        by simp
      with "4.IH"(2) [OF refl dir True call [symmetric] refl rest "4.prems"(2)]
      show ?thesis .
    next
      case False
      with "4.prems" dir "4.IH"(3) [OF refl dir False] show ?thesis
        by (simp add: Let_def)
    qed
  next
    case nodir: False
    from "4.prems"(1) nodir obtain f where
      isf: "isfile e ?x" and f: "File_init e ?x (Some (path b)) = Inr f"
      and rest: "populate_loop e (Directory b sds (fs @ [f]) em rec depth) items
                   (g\<lparr>file_count := file_count g + 1,
                      printed := printed g @ [file_count g + 1]\<rparr>) = (Inr d'', g3)"
      by (auto simp: Let_def split: sum.splits if_splits)
    have "PF f"
      using PF [of ?x "Some (path b)" f] f "4.prems"(2) by simp
    with ok have "all_nodes PD PF (Directory b sds (fs @ [f]) em rec depth)"
      by simp
    with "4.IH"(4) [OF refl nodir isf f refl refl] rest "4.prems"(2) show ?thesis
      by simp
  qed
qed

section \<open>The flag \<open>hash_files\<close>\<close>

text \<open>The constructor of a directory never reads its argument \<open>hash_files\<close>, and a file
  it builds has the flag off and no hash.\<close>

lemma hash_files_ignored:
  "Directory_init e p parent_dir hf rec depth g =
     Directory_init e p parent_dir False rec depth g"
  by simp

lemma File_init_no_hash:
  assumes "File_init e p parent_dir = Inr f"
  shows "\<not> hash_files (file_base f) \<and> hash f = None"
  using assms
  by (auto simp: File_init_def Pathed_init_def calculate_hash_and_size_def Let_def
           split: sum.splits if_splits)

lemma Directory_init_unhashed:
  assumes "Directory_init e p parent_dir hf rec depth g = (Inr d, g')"
  shows "unhashed d"
  unfolding unhashed_def
proof (rule Directory_init_all_nodes(1) [OF _ _ assms refl])
  fix p parent_dir b
  assume "Pathed_init e Directory_class p (isdir e) NotADirectoryError parent_dir False = Inr b"
  then show "hash_files b = False"
    by (auto simp: Pathed_init_def Let_def split: if_splits)
next
  fix p parent_dir f
  assume "File_init e p parent_dir = Inr f"
  then show "hash_files (file_base f) = False \<and> hash f = None"
    using File_init_no_hash by simp
qed

text \<open>
  C1 says that a root built with \<open>hash_files = True\<close> has the flag set in every
  descendant, and that every file of the subtree caches its hash at construction. On
  \<open>fs0\<close> the constructor, called on \<open>/r\<close> with \<open>hash_files = True\<close>, returns the tree
  \<open>dir_r\<close>: the flag is \<open>False\<close> in the root, in the directory \<open>/r/a\<close> and in the file
  \<open>/r/f\<close>, and the file has no hash.
\<close>

theorem hash_files_true_is_dropped:
  "Directory_init fs0 ''/r'' None True False 0 g0 =
     (Inr dir_r, \<lparr>file_count = 1, printed = [1]\<rparr>) \<and>
   hash_files (dir_base dir_r) = False \<and>
   sub_dirs dir_r = [dir_r_a] \<and> hash_files (dir_base dir_r_a) = False \<and>
   files dir_r = [file_r_f] \<and> hash_files (file_base file_r_f) = False \<and>
   hash file_r_f = None"
  by (simp add: data_defs eval_defs)

section \<open>Refresh\<close>

text \<open>A tree that was just built stores the modification times of the filesystem it was
  built on, and its refresh on that filesystem returns \<open>False\<close> and changes nothing.\<close>

lemma Directory_init_synced:
  assumes "Directory_init e p parent_dir hf rec depth g = (Inr d, g')"
  shows "synced e d"
  unfolding synced_def
proof (rule Directory_init_all_nodes(1) [OF _ _ assms refl])
  fix p parent_dir b
  assume "Pathed_init e Directory_class p (isdir e) NotADirectoryError parent_dir False = Inr b"
  then show "last_modified b = getmtime e (path b)"
    by (auto simp: Pathed_init_def Let_def split: if_splits)
next
  fix p parent_dir f
  assume "File_init e p parent_dir = Inr f"
  then show "last_modified (file_base f) = getmtime e (path (file_base f))"
    by (auto simp: File_init_def Pathed_init_def calculate_hash_and_size_def Let_def
             split: if_splits sum.splits)
qed

lemma Pathed_refresh_synced:
  "last_modified b = getmtime e (path b) \<Longrightarrow> Pathed_refresh e b = (False, b)"
  by (simp add: Pathed_refresh_def Let_def)

lemma File_refresh_synced:
  assumes "last_modified (file_base f) = getmtime e (path (file_base f))"
    and "hash_files (file_base f) = False"
  shows "File_refresh e f = (Inr False, f)"
  using assms by (simp add: File_refresh_def Pathed_refresh_synced)

lemma refresh_files_synced:
  assumes "list_all (\<lambda>f. last_modified (file_base f) = getmtime e (path (file_base f))) fs"
    and "list_all (\<lambda>f. hash_files (file_base f) = False \<and> hash f = None) fs"
  shows "refresh_files e False fs = (Inr False, fs)"
  using assms by (induction fs) (simp_all add: File_refresh_synced)

lemma Directory_refresh_synced:
  "synced e d \<Longrightarrow> unhashed d \<Longrightarrow> Directory_refresh e d = (Inr False, d)"
  "list_all (synced e) sds \<Longrightarrow> list_all unhashed sds \<Longrightarrow> \<not> refreshed \<Longrightarrow>
     refresh_sub_dirs e refreshed sds = (Inr False, sds)"
proof (induction e d and e refreshed sds rule: Directory_refresh_refresh_sub_dirs.induct)
  case (1 e b sds fs em rec depth)
  from "1.prems" have b: "last_modified b = getmtime e (path b)"
    and sds: "list_all (synced e) sds" "list_all unhashed sds"
    and fs: "list_all (\<lambda>f. last_modified (file_base f) = getmtime e (path (file_base f))) fs"
            "list_all (\<lambda>f. hash_files (file_base f) = False \<and> hash f = None) fs"
    by (simp_all add: synced_def unhashed_def)
  have pr: "Pathed_refresh e b = (False, b)"
    using b by (rule Pathed_refresh_synced)
  have "refresh_sub_dirs e False sds = (Inr False, sds)"
    using "1.IH" [OF pr [symmetric] sds] by simp
  with pr refresh_files_synced [OF fs] show ?case
    by simp
next
  case (2 e refreshed)
  then show ?case by simp
next
  case (3 e refreshed sub_dir rest)
  from "3.prems" have nr: "\<not> refreshed"
    and s: "synced e sub_dir" "unhashed sub_dir"
    and r: "list_all (synced e) rest" "list_all unhashed rest"
    by simp_all
  have call: "Directory_refresh e sub_dir = (Inr False, sub_dir)"
    using "3.IH"(2) [OF nr s] .
  have "refresh_sub_dirs e False rest = (Inr False, rest)"
    using "3.IH"(3) [OF nr call [symmetric] refl r] by simp
  with nr call show ?case
    by simp
qed

lemma refresh_after_construction:
  assumes "Directory_init e p parent_dir hf rec depth g = (Inr d, g')"
  shows "Directory_refresh e d = (Inr False, d)"
  using Directory_refresh_synced(1) [OF Directory_init_synced [OF assms]
          Directory_init_unhashed [OF assms]] .

text \<open>
  C2 says that \<open>Directory.refresh\<close> calls \<open>refresh\<close> on every child, also after an
  earlier node has reported a change. The tree \<open>dir_r\<close> is built on \<open>fs0\<close>; then \<open>/r/f\<close>
  is replaced, which changes the modification times of \<open>/r\<close> and of \<open>/r/f\<close>. The refresh
  of the root reports the change of \<open>/r\<close> and returns the tree \<open>dir_r_stale\<close>, whose
  file still stores the modification time 1 although the filesystem has 2: the file was
  not refreshed.
\<close>

theorem refresh_skips_children_after_change:
  "Directory_init fs0 ''/r'' None False False 0 g0 =
     (Inr dir_r, \<lparr>file_count = 1, printed = [1]\<rparr>) \<and>
   Directory_refresh fs1 dir_r = (Inr True, dir_r_stale) \<and>
   files dir_r_stale = [file_r_f] \<and>
   last_modified (file_base file_r_f) = 1 \<and>
   getmtime fs1 (path (file_base file_r_f)) = 2"
  by (simp add: data_defs eval_defs)

text \<open>A file alone reports a change once: after a refresh that returned, the next
  refresh on the same filesystem returns \<open>False\<close> and changes nothing.\<close>

lemma File_refresh_reports_once:
  assumes "File_refresh e f = (Inr r, f')"
  shows "File_refresh e f' = (Inr False, f')"
  using assms
  by (auto simp: File_refresh_def Pathed_refresh_def calculate_hash_and_size_def hash_file_def
        Let_def split: if_splits option.splits)

text \<open>
  C3 says that after one edit that changes modification times the next refresh returns
  true and the one after it false. For the tree \<open>dir_r\<close>, built on \<open>fs0\<close>, and the one
  edit that leads to \<open>fs1\<close>, the refresh before the edit returns \<open>False\<close>; after the edit the
  first refresh returns \<open>True\<close> (for \<open>/r\<close>, skipping the file), the second returns
  \<open>True\<close> again (for \<open>/r/f\<close>), and only the third returns \<open>False\<close>.
\<close>

theorem refresh_reports_one_edit_twice:
  "Directory_init fs0 ''/r'' None False False 0 g0 =
     (Inr dir_r, \<lparr>file_count = 1, printed = [1]\<rparr>) \<and>
   Directory_refresh fs0 dir_r = (Inr False, dir_r) \<and>
   Directory_refresh fs1 dir_r = (Inr True, dir_r_stale) \<and>
   Directory_refresh fs1 dir_r_stale = (Inr True, dir_r_fresh) \<and>
   Directory_refresh fs1 dir_r_fresh = (Inr False, dir_r_fresh)"
  by (simp add: data_defs eval_defs)

section \<open>The accessor \<open>hash\<close>\<close>

text \<open>Reading \<open>hash\<close> of a file the module has built raises, on any filesystem.\<close>

lemma File_hash_raises:
  assumes "File_init e p parent_dir = Inr f"
  shows "fst (File_hash e' f) = Inl (AttributeError ''_File__hash'')"
  using File_init_no_hash [OF assms]
  by (simp add: File_hash_def calculate_hash_and_size_def Let_def)

text \<open>
  C4 says that with hashing disabled every read of \<open>hash\<close> recomputes size and hash from
  the contents on disk and returns the hash of the current contents. The file \<open>/r/f\<close> is
  built on \<open>fs0\<close> with the flag off. Reading its \<open>hash\<close> raises \<open>AttributeError\<close>, on
  \<open>fs0\<close> and, after the contents were replaced, on \<open>fs1\<close>, where the read stores the
  new size 3 before it raises: the size is recomputed, the hash is not.
\<close>

theorem hash_accessor_raises_without_hash_files:
  "File_init fs0 ''/r/f'' (Some ''/r'') = Inr file_r_f \<and>
   hash_files (file_base file_r_f) = False \<and>
   File_hash fs0 file_r_f = (Inl (AttributeError ''_File__hash''), file_r_f) \<and>
   File_hash fs1 file_r_f =
     (Inl (AttributeError ''_File__hash''), file_r_f\<lparr>filesize := Some 3\<rparr>)"
  by (simp add: data_defs eval_defs)

section \<open>The depth budget\<close>

text \<open>A directory built with a negative budget has no sub-directories, so below a root
  built with budget 0 no directory has any.\<close>

lemma negative_budget_no_sub_dirs:
  assumes "Directory_init e p parent_dir hf rec depth g = (Inr d, g')" and "depth < 0"
  shows "sub_dirs d = []"
proof -
  from assms(1) obtain b where pb: "path b = abspath e p"
    and loop: "populate_loop e
                 (Directory b [] [] (if length (listdir e (path b)) = 0 then True else False)
                    rec depth)
                 (listdir e (path b)) g = (Inr d, g')"
    by (rule Directory_init_loop)
  from populate_loop_children [OF loop] assms(2)
  have "map (\<lambda>s. path (dir_base s)) (sub_dirs d) = []"
    by simp
  then show ?thesis
    by simp
qed

lemma populate_loop_budget_zero:
  "populate_loop e self items g = (Inr d, g') \<Longrightarrow> recursive_depth self \<le> 0 \<Longrightarrow>
     list_all (\<lambda>s. sub_dirs s = []) (sub_dirs self) \<Longrightarrow>
     list_all (\<lambda>s. sub_dirs s = []) (sub_dirs d)"
proof (induction items arbitrary: self g)
  case Nil
  then show ?case by simp
next
  case (Cons item items)
  obtain b sds fs em r depth where self: "self = Directory b sds fs em r depth"
    by (cases self)
  let ?x = "path_join (path b) item"
  show ?case
  proof (cases "isdir e ?x \<and> 0 \<le> depth")
    case True
    with Cons.prems(1) obtain sub_dir y where
      call: "Directory_init e ?x (Some (path b)) (hash_files b) r (depth - 1) g =
               (Inr sub_dir, y)"
      and rest: "populate_loop e (Directory b (sds @ [sub_dir]) fs em r depth) items y =
               (Inr d, g')"
      unfolding self
      by (auto simp: Let_def split: sum.splits prod.splits simp del: Directory_init.simps)
    have "depth - 1 < 0"
      using Cons.prems(2) self by simp
    from negative_budget_no_sub_dirs [OF call this] have "sub_dirs sub_dir = []" .
    with Cons.prems(2,3) show ?thesis
      by (intro Cons.IH [OF rest]) (simp_all add: self)
  next
    case False
    with Cons.prems show ?thesis
      unfolding self
      by (auto simp: Let_def split: if_splits sum.splits dest!: Cons.IH
               simp del: Directory_init.simps)
  qed
qed

lemma budget_zero_one_level:
  assumes "Directory_init e p parent_dir hf rec 0 g = (Inr d, g')"
  shows "list_all (\<lambda>s. sub_dirs s = []) (sub_dirs d)"
proof -
  from assms obtain b where
    loop: "populate_loop e
             (Directory b [] [] (if length (listdir e (path b)) = 0 then True else False) rec 0)
             (listdir e (path b)) g = (Inr d, g')"
    by (rule Directory_init_loop)
  from populate_loop_budget_zero [OF loop] show ?thesis
    by simp
qed

text \<open>
  C5 says that with \<open>recursive_depth = 0\<close> the scan descends without bound. On \<open>fs0\<close>
  the root \<open>/r\<close> built with budget 0 holds the directory \<open>/r/a\<close>, built with budget
  \<open>- 1\<close>; that node has no sub-directories although \<open>/r/a\<close> lists the directory \<open>b\<close>:
  the test \<open>budget \<ge> 0\<close> fails one level below the root.
\<close>

theorem depth_zero_descends_one_level:
  "Directory_init fs0 ''/r'' None False False 0 g0 =
     (Inr dir_r, \<lparr>file_count = 1, printed = [1]\<rparr>) \<and>
   sub_dirs dir_r = [dir_r_a] \<and> recursive_depth dir_r_a = - 1 \<and> sub_dirs dir_r_a = [] \<and>
   listdir fs0 (path (dir_base dir_r_a)) = [''b''] \<and>
   isdir fs0 (path_join (path (dir_base dir_r_a)) ''b'')"
  by (simp add: data_defs eval_defs)

section \<open>The listing and the children\<close>

text \<open>
  C6 says that for every valid directory path the constructed directory has as many
  children as the listing has entries. The directory \<open>/r/a\<close> of \<open>fs0\<close> lists one entry,
  the directory \<open>b\<close>. The root \<open>/r\<close> built with the default budget 0 constructs
  \<open>/r/a\<close> with budget \<open>- 1\<close>, and that construction yields a node with no children.
\<close>

theorem partition_counterexample:
  "Directory_init fs0 ''/r'' None False False 0 g0 =
     (Inr dir_r, \<lparr>file_count = 1, printed = [1]\<rparr>) \<and>
   sub_dirs dir_r = [dir_r_a] \<and>
   Directory_init fs0 ''/r/a'' (Some ''/r'') False False (- 1) g0 = (Inr dir_r_a, g0) \<and>
   isdir fs0 ''/r/a'' \<and>
   length (sub_dirs dir_r_a) + length (files dir_r_a) \<noteq>
     length (listdir fs0 (abspath fs0 ''/r/a''))"
  by (simp add: data_defs eval_defs)

text \<open>
  C6 as amended: when the construction of a directory succeeds and its budget
  \<open>recursive_depth\<close> is not negative, \<open>sub_dirs\<close> and \<open>files\<close> together have as many
  elements as the listing has entries, \<open>sub_dirs\<close> holds the entries that are
  directories and \<open>files\<close> the others, both in the order of the listing; with a negative
  budget \<open>sub_dirs\<close> is empty and \<open>files\<close> holds the entries that are not directories.
  In both cases every entry is a directory or a regular file, and \<open>empty\<close> is true iff the
  listing has no entry.
\<close>

theorem Directory_init_partition:
  assumes "Directory_init e p parent_dir hf rec depth g = (Inr d, g')"
  shows "(0 \<le> depth \<longrightarrow>
            length (sub_dirs d) + length (files d) = length (listdir e (abspath e p)) \<and>
            map (\<lambda>s. path (dir_base s)) (sub_dirs d) =
              map (\<lambda>i. abspath e (path_join (abspath e p) i))
                (filter (\<lambda>i. isdir e (path_join (abspath e p) i)) (listdir e (abspath e p)))) \<and>
         (depth < 0 \<longrightarrow> sub_dirs d = []) \<and>
         map (\<lambda>f. path (file_base f)) (files d) =
           map (\<lambda>i. abspath e (path_join (abspath e p) i))
             (filter (\<lambda>i. \<not> isdir e (path_join (abspath e p) i)) (listdir e (abspath e p))) \<and>
         list_all (\<lambda>i. isdir e (path_join (abspath e p) i) \<or> isfile e (path_join (abspath e p) i))
           (listdir e (abspath e p)) \<and>
         (empty d \<longleftrightarrow> listdir e (abspath e p) = [])"
proof -
  let ?items = "listdir e (abspath e p)"
  let ?join = "\<lambda>i. path_join (abspath e p) i"
  from assms obtain b where pb: "path b = abspath e p"
    and loop: "populate_loop e
                 (Directory b [] [] (if length (listdir e (path b)) = 0 then True else False)
                    rec depth)
                 (listdir e (path b)) g = (Inr d, g')"
    by (rule Directory_init_loop)
  have subs: "map (\<lambda>s. path (dir_base s)) (sub_dirs d) =
      (if 0 \<le> depth then map (\<lambda>i. abspath e (?join i)) (filter (\<lambda>i. isdir e (?join i)) ?items)
       else [])"
    using populate_loop_children [OF loop] pb by simp
  have fls: "map (\<lambda>f. path (file_base f)) (files d) =
      map (\<lambda>i. abspath e (?join i)) (filter (\<lambda>i. \<not> isdir e (?join i)) ?items)"
    using populate_loop_children [OF loop] pb by simp
  have known: "list_all (\<lambda>i. isdir e (?join i) \<or> isfile e (?join i)) ?items"
    using populate_loop_entries [OF loop] pb by simp
  have em: "empty d \<longleftrightarrow> ?items = []"
    using Directory_init_fields(4) [OF assms] .
  have len: "length (sub_dirs d) + length (files d) = length ?items" if "0 \<le> depth"
  proof -
    have "length (sub_dirs d) = length (filter (\<lambda>i. isdir e (?join i)) ?items)"
      using arg_cong [OF subs, of length] that by simp
    moreover have "length (files d) = length (filter (\<lambda>i. \<not> isdir e (?join i)) ?items)"
      using arg_cong [OF fls, of length] by simp
    ultimately show ?thesis
      by (simp add: sum_length_filter_compl)
  qed
  have none: "sub_dirs d = []" if "depth < 0"
    using arg_cong [OF subs, of length] that by simp
  from subs fls known em len none show ?thesis
    by simp
qed

text \<open>The amended C6 on \<open>fs0\<close>: the root \<open>/r\<close> with budget 0, whose two entries
  become one sub-directory and one file, and \<open>/r/a\<close> with budget \<open>- 1\<close>.\<close>

theorem Directory_init_partition_witness:
  "Directory_init fs0 ''/r'' None False False 0 g0 =
     (Inr dir_r, \<lparr>file_count = 1, printed = [1]\<rparr>) \<and>
   (0::int) \<le> 0 \<and>
   length (sub_dirs dir_r) + length (files dir_r) = length (listdir fs0 (abspath fs0 ''/r'')) \<and>
   map (\<lambda>s. path (dir_base s)) (sub_dirs dir_r) =
     map (\<lambda>i. abspath fs0 (path_join (abspath fs0 ''/r'') i))
       (filter (\<lambda>i. isdir fs0 (path_join (abspath fs0 ''/r'') i))
          (listdir fs0 (abspath fs0 ''/r''))) \<and>
   map (\<lambda>f. path (file_base f)) (files dir_r) =
     map (\<lambda>i. abspath fs0 (path_join (abspath fs0 ''/r'') i))
       (filter (\<lambda>i. \<not> isdir fs0 (path_join (abspath fs0 ''/r'') i))
          (listdir fs0 (abspath fs0 ''/r''))) \<and>
   empty dir_r = (listdir fs0 (abspath fs0 ''/r'') = []) \<and>
   Directory_init fs0 ''/r/a'' (Some ''/r'') False False (- 1) g0 = (Inr dir_r_a, g0) \<and>
   (- 1::int) < 0 \<and> sub_dirs dir_r_a = []"
proof -
  have r: "Directory_init fs0 ''/r'' None False False 0 g0 =
      (Inr dir_r, \<lparr>file_count = 1, printed = [1]\<rparr>)"
    by (simp add: data_defs eval_defs)
  have a: "Directory_init fs0 ''/r/a'' (Some ''/r'') False False (- 1) g0 = (Inr dir_r_a, g0)"
    by (simp add: data_defs eval_defs)
  from Directory_init_partition [OF r] Directory_init_partition [OF a] r a
  show ?thesis
    by (simp del: Directory_init.simps)
qed

section \<open>Hashing a file\<close>

text \<open>
  C7: for a file whose contents are not empty, \<open>__hash_file\<close> returns the hex digest of
  the bytes read; for a file of length zero it returns the empty value \<open>b''\<close>, which is
  not the digest of no bytes; and two files with the same contents get the same hash.
\<close>

theorem hash_file_digest_or_empty:
  "(read_file e (path (file_base f)) \<noteq> [] \<longrightarrow>
      hash_file e f = Hexdigest (blake3_hexdigest e (read_file e (path (file_base f))))) \<and>
   (read_file e (path (file_base f)) = [] \<longrightarrow>
      hash_file e f = Empty_bytes \<and> hash_file e f \<noteq> Hexdigest (blake3_hexdigest e [])) \<and>
   (read_file e (path (file_base f)) = read_file e (path (file_base f')) \<longrightarrow>
      hash_file e f = hash_file e f')"
  by (simp add: hash_file_def Let_def)

text \<open>C7 on \<open>fs0\<close>, where \<open>/r/f\<close> holds two bytes, and on \<open>fs_trunc\<close>, where it holds
  none.\<close>

theorem hash_file_digest_or_empty_witness:
  "read_file fs0 (path (file_base file_r_f)) \<noteq> [] \<and>
   hash_file fs0 file_r_f = Hexdigest (blake3_hexdigest fs0 [0x68, 0x69]) \<and>
   read_file fs_trunc (path (file_base file_r_f)) = [] \<and>
   hash_file fs_trunc file_r_f = Empty_bytes \<and>
   hash_file fs_trunc file_r_f \<noteq> Hexdigest (blake3_hexdigest fs_trunc []) \<and>
   read_file fs0 (path (file_base file_r_f)) =
     read_file fs0 (path (file_base (file_r_f\<lparr>filesize := None\<rparr>))) \<and>
   hash_file fs0 file_r_f = hash_file fs0 (file_r_f\<lparr>filesize := None\<rparr>)"
proof -
  have c: "read_file fs0 (path (file_base file_r_f)) = [0x68, 0x69]"
    by (simp add: fs0_def file_r_f_def)
  have n: "read_file fs0 (path (file_base file_r_f)) \<noteq> []"
    by (simp add: c)
  have t: "read_file fs_trunc (path (file_base file_r_f)) = []"
    by (simp add: fs_trunc_def)
  have s: "read_file fs0 (path (file_base file_r_f)) =
      read_file fs0 (path (file_base (file_r_f\<lparr>filesize := None\<rparr>)))"
    by simp
  have "hash_file fs0 file_r_f =
      Hexdigest (blake3_hexdigest fs0 (read_file fs0 (path (file_base file_r_f))))"
    using hash_file_digest_or_empty [of fs0 file_r_f file_r_f] n by blast
  then have 1: "hash_file fs0 file_r_f = Hexdigest (blake3_hexdigest fs0 [0x68, 0x69])"
    by (simp only: c)
  have 2: "hash_file fs_trunc file_r_f = Empty_bytes \<and>
      hash_file fs_trunc file_r_f \<noteq> Hexdigest (blake3_hexdigest fs_trunc [])"
    using hash_file_digest_or_empty [of fs_trunc file_r_f file_r_f] t by blast
  have 3: "hash_file fs0 file_r_f = hash_file fs0 (file_r_f\<lparr>filesize := None\<rparr>)"
    using hash_file_digest_or_empty [of fs0 file_r_f "file_r_f\<lparr>filesize := None\<rparr>"] s
    by blast
  from n 1 t 2 s 3 show ?thesis
    by blast
qed

section \<open>Entries that are neither directories nor files\<close>

text \<open>An unknown entry reached by the loop raises, and a listing with an unknown entry
  makes the construction raise.\<close>

lemma unknown_entry_aborts:
  assumes b: "Pathed_init e Directory_class p (isdir e) NotADirectoryError parent_dir False = Inr b"
    and items: "listdir e (abspath e p) = pre @ item # post"
    and pre: "populate_loop e (Directory b [] [] False rec depth) pre g = (Inr s, g')"
    and unknown: "\<not> isdir e (path_join (abspath e p) item)"
                 "\<not> isfile e (path_join (abspath e p) item)"
  shows "Directory_init e p parent_dir hf rec depth g =
           (Inl (EnvironmentError
                   (''Unknown Directory Element: '' @ path_join (abspath e p) item)), g')"
proof -
  have pb: "path b = abspath e p"
    using b by (rule Pathed_init_path)
  obtain sds fs em r d where s: "s = Directory (dir_base s) sds fs em r d"
    by (cases s) simp
  have base: "dir_base s = b"
    using populate_loop_fields [OF pre] by simp
  have "populate_loop e s (item # post) g' =
          (Inl (EnvironmentError
                  (''Unknown Directory Element: '' @ path_join (abspath e p) item)), g')"
    using unknown by (subst s) (simp add: base pb Let_def)
  then have "populate_loop e (Directory b [] [] False rec depth) (pre @ item # post) g =
          (Inl (EnvironmentError
                  (''Unknown Directory Element: '' @ path_join (abspath e p) item)), g')"
    by (simp add: populate_loop_append pre)
  then show ?thesis
    using b by (simp add: pb items)
qed

lemma unknown_entry_fails:
  assumes "item \<in> set (listdir e (abspath e p))"
    and "\<not> isdir e (path_join (abspath e p) item)"
    and "\<not> isfile e (path_join (abspath e p) item)"
  shows "isl (fst (Directory_init e p parent_dir hf rec depth g))"
proof (cases "Directory_init e p parent_dir hf rec depth g")
  case (Pair res g')
  show ?thesis
  proof (cases res)
    case (Inl err)
    with Pair show ?thesis by (simp del: Directory_init.simps)
  next
    case (Inr d)
    with Pair have "Directory_init e p parent_dir hf rec depth g = (Inr d, g')"
      by simp
    then obtain b where pb: "path b = abspath e p"
      and loop: "populate_loop e
                   (Directory b [] [] (if length (listdir e (path b)) = 0 then True else False)
                      rec depth)
                   (listdir e (path b)) g = (Inr d, g')"
      by (rule Directory_init_loop)
    have "list_all (\<lambda>i. isdir e (path_join (abspath e p) i) \<or>
                        isfile e (path_join (abspath e p) i)) (listdir e (abspath e p))"
      using populate_loop_entries [OF loop] pb by simp
    with assms show ?thesis
      by (auto simp: list_all_iff)
  qed
qed

text \<open>
  C8: if the listing of the directory holds an entry that is neither a directory nor a
  regular file, the construction raises. If the entries before it were processed without
  an exception, the exception is the \<open>EnvironmentError\<close> whose message names the path of
  that entry, and the global state is the one reached after the earlier entries:
  whatever follows in the listing is not processed.
\<close>

theorem unknown_entry_raises:
  assumes items: "listdir e (abspath e p) = pre @ item # post"
    and unknown: "\<not> isdir e (path_join (abspath e p) item)"
                 "\<not> isfile e (path_join (abspath e p) item)"
  shows "isl (fst (Directory_init e p parent_dir hf rec depth g)) \<and>
         (\<forall>b s g'.
            Pathed_init e Directory_class p (isdir e) NotADirectoryError parent_dir False = Inr b \<longrightarrow>
            populate_loop e (Directory b [] [] False rec depth) pre g = (Inr s, g') \<longrightarrow>
            Directory_init e p parent_dir hf rec depth g =
              (Inl (EnvironmentError
                      (''Unknown Directory Element: '' @ path_join (abspath e p) item)), g'))"
proof -
  have "item \<in> set (listdir e (abspath e p))"
    by (simp add: items)
  from unknown_entry_fails [OF this unknown]
  have "isl (fst (Directory_init e p parent_dir hf rec depth g))" .
  moreover have "Directory_init e p parent_dir hf rec depth g =
      (Inl (EnvironmentError
              (''Unknown Directory Element: '' @ path_join (abspath e p) item)), g')"
    if "Pathed_init e Directory_class p (isdir e) NotADirectoryError parent_dir False = Inr b"
      and "populate_loop e (Directory b [] [] False rec depth) pre g = (Inr s, g')"
    for b s g'
    using unknown_entry_aborts [OF that(1) items that(2) unknown] .
  ultimately show ?thesis
    by blast
qed

text \<open>C8 on \<open>fs_sock\<close>: the file \<open>f\<close> is processed, the socket \<open>s\<close> raises, and the
  directory \<open>a\<close> behind it is not visited.\<close>

theorem unknown_entry_raises_witness:
  "listdir fs_sock (abspath fs_sock ''/r'') = [''f''] @ ''s'' # [''a''] \<and>
   \<not> isdir fs_sock (path_join (abspath fs_sock ''/r'') ''s'') \<and>
   \<not> isfile fs_sock (path_join (abspath fs_sock ''/r'') ''s'') \<and>
   Pathed_init fs_sock Directory_class ''/r'' (isdir fs_sock) NotADirectoryError None False =
     Inr base_r \<and>
   populate_loop fs_sock (Directory base_r [] [] False False 0) [''f''] g0 =
     (Inr (Directory base_r [] [file_r_f] False False 0),
      \<lparr>file_count = 1, printed = [1]\<rparr>) \<and>
   isl (fst (Directory_init fs_sock ''/r'' None False False 0 g0)) \<and>
   Directory_init fs_sock ''/r'' None False False 0 g0 =
     (Inl (EnvironmentError ''Unknown Directory Element: /r/s''),
      \<lparr>file_count = 1, printed = [1]\<rparr>)"
proof -
  have items: "listdir fs_sock (abspath fs_sock ''/r'') = [''f''] @ ''s'' # [''a'']"
    by (simp add: fs_sock_def fs0_def)
  have unknown: "\<not> isdir fs_sock (path_join (abspath fs_sock ''/r'') ''s'')"
    "\<not> isfile fs_sock (path_join (abspath fs_sock ''/r'') ''s'')"
    by (simp_all add: fs_sock_def fs0_def path_join_def)
  have b: "Pathed_init fs_sock Directory_class ''/r'' (isdir fs_sock) NotADirectoryError
             None False = Inr base_r"
    by (simp add: fs_sock_def fs0_def base_r_def eval_defs)
  have pre: "populate_loop fs_sock (Directory base_r [] [] False False 0) [''f''] g0 =
     (Inr (Directory base_r [] [file_r_f] False False 0),
      \<lparr>file_count = 1, printed = [1]\<rparr>)"
    by (simp add: data_defs eval_defs)
  have msg: "''Unknown Directory Element: '' @ path_join (abspath fs_sock ''/r'') ''s'' =
      ''Unknown Directory Element: /r/s''"
    by (simp add: fs_sock_def fs0_def path_join_def)
  note th = unknown_entry_raises [OF items unknown, of None False False 0 g0]
  from th have 1: "isl (fst (Directory_init fs_sock ''/r'' None False False 0 g0))"
    by blast
  from th b pre have "Directory_init fs_sock ''/r'' None False False 0 g0 =
     (Inl (EnvironmentError
            (''Unknown Directory Element: '' @ path_join (abspath fs_sock ''/r'') ''s'')),
      \<lparr>file_count = 1, printed = [1]\<rparr>)"
    by blast
  then have 2: "Directory_init fs_sock ''/r'' None False False 0 g0 =
     (Inl (EnvironmentError ''Unknown Directory Element: /r/s''),
      \<lparr>file_count = 1, printed = [1]\<rparr>)"
    by (simp only: msg)
  from items unknown b pre 1 2 show ?thesis
    by blast
qed

section \<open>The flag \<open>recursive\<close>\<close>

text \<open>Neither the constructor nor the scan reads the flag: they store it and hand it to
  the children.\<close>

lemma on_result_simps [simp]:
  "on_result f (Inl err, g) = (Inl err, g)"
  "on_result f (Inr d, g) = (Inr (f d), g)"
  by (simp_all add: on_result_def)

lemma recursive_flag_unused:
  "Directory_init e p parent_dir hf r' depth g =
     on_result (set_recursive r') (Directory_init e p parent_dir hf rec depth g)"
  "populate e (set_recursive r' self) g' =
     on_result (set_recursive r') (populate e self g')"
  "populate_loop e (set_recursive r' self') items g'' =
     on_result (set_recursive r') (populate_loop e self' items g'')"
proof (induction e p parent_dir hf rec depth g and e self g' and e self' items g''
       rule: Directory_init_populate_populate_loop.induct)
  case (1 e p parent_dir hf rec depth g)
  show ?case
  proof (cases "Pathed_init e Directory_class p (isdir e) NotADirectoryError parent_dir False")
    case (Inl err)
    then show ?thesis by simp
  next
    case (Inr b)
    from "1.IH" [OF Inr] Inr show ?thesis
      by (simp del: populate.simps)
  qed
next
  case (2 e b sds fs em rec depth g)
  from "2.IH" [OF refl] show ?case
    by (simp add: Let_def)
next
  case (3 e self g)
  then show ?case by simp
next
  case (4 e b sds fs em rec depth item items g)
  let ?x = "path_join (path b) item"
  show ?case
  proof (cases "isdir e ?x")
    case dir: True
    show ?thesis
    proof (cases "0 \<le> depth")
      case True
      obtain res y where call:
        "Directory_init e ?x (Some (path b)) (hash_files b) rec (depth - 1) g = (res, y)"
        by (cases "Directory_init e ?x (Some (path b)) (hash_files b) rec (depth - 1) g")
      have call': "Directory_init e ?x (Some (path b)) (hash_files b) r' (depth - 1) g =
          on_result (set_recursive r') (res, y)"
        using "4.IH"(1) [OF refl dir True] call by (simp del: Directory_init.simps)
      show ?thesis
      proof (cases res)
        case (Inl err)
        with dir True call call' show ?thesis
          by (simp add: Let_def del: Directory_init.simps)
      next
        case (Inr sub_dir)
        from "4.IH"(2) [OF refl dir True call [symmetric] Inr]
        have "populate_loop e (set_recursive r' (Directory b (sds @ [sub_dir]) fs em rec depth))
                items y =
              on_result (set_recursive r')
                (populate_loop e (Directory b (sds @ [sub_dir]) fs em rec depth) items y)" .
        with dir True call call' Inr show ?thesis
          by (simp add: Let_def del: Directory_init.simps)
      qed
    next
      case False
      from "4.IH"(3) [OF refl dir False] dir False show ?thesis
        by (simp add: Let_def del: Directory_init.simps)
    qed
  next
    case nodir: False
    show ?thesis
    proof (cases "isfile e ?x")
      case False
      with nodir show ?thesis by (simp add: Let_def)
    next
      case True
      show ?thesis
      proof (cases "File_init e ?x (Some (path b))")
        case (Inl err)
        with nodir True show ?thesis by (simp add: Let_def)
      next
        case (Inr f)
        from "4.IH"(4) [OF refl nodir True Inr refl refl] nodir True Inr show ?thesis
          by (simp add: Let_def)
      qed
    qed
  qed
qed

text \<open>
  C9: for every path and every choice of the other parameters, the construction with
  one value of \<open>recursive\<close> and the construction with the other raise the same exception
  or build the same tree, up to the flag stored in each directory of the tree, and leave
  the same global state. Whether the scan descends depends on \<open>recursive_depth\<close> only.
\<close>

theorem recursive_flag_never_consulted:
  "Directory_init e p parent_dir hf rec' depth g =
     on_result (set_recursive rec') (Directory_init e p parent_dir hf rec depth g)"
  by (rule recursive_flag_unused(1))

text \<open>C9 on \<open>fs0\<close>: the tree built with \<open>recursive = True\<close> is \<open>dir_r\<close>, built with
  \<open>recursive = False\<close>, with the stored flag set.\<close>

theorem recursive_flag_never_consulted_witness:
  "Directory_init fs0 ''/r'' None False True 0 g0 =
     on_result (set_recursive True) (Inr dir_r, \<lparr>file_count = 1, printed = [1]\<rparr>)"
proof -
  have r: "Directory_init fs0 ''/r'' None False False 0 g0 =
      (Inr dir_r, \<lparr>file_count = 1, printed = [1]\<rparr>)"
    by (simp add: data_defs eval_defs)
  from recursive_flag_never_consulted [of fs0 "''/r''" None False True 0 g0 False]
  show ?thesis
    by (simp only: r)
qed

section \<open>The tags \<open>is_dir\<close> and \<open>is_file\<close>\<close>

lemma Pathed_init_kind:
  "Pathed_init e cls p m err par hf = Inr b \<Longrightarrow>
     is_dir b = (cls = Directory_class) \<and> is_file b = (cls = File_class)"
  by (auto simp: Pathed_init_def Let_def issubclass_def split: if_splits)

lemma calculate_hash_and_size_kind:
  "file_kind (calculate_hash_and_size e f) = file_kind f"
  by (simp add: calculate_hash_and_size_def file_kind_def Let_def)

lemma File_init_kind:
  assumes "File_init e p par = Inr f"
  shows "file_kind f = (False, True)"
proof -
  from assms obtain b where
    b: "Pathed_init e File_class p (isfile e) FileExistsError par False = Inr b"
    and f: "f = calculate_hash_and_size e \<lparr>file_base = b, filesize = None, hash = None\<rparr>"
    by (auto simp: File_init_def split: sum.splits)
  show ?thesis
    using Pathed_init_kind [OF b]
    by (simp add: f calculate_hash_and_size_kind) (simp add: file_kind_def)
qed

lemma kinds_ok_all_nodes:
  "kinds_ok d = all_nodes (\<lambda>b. is_dir b \<and> \<not> is_file b) (\<lambda>f. file_kind f = (False, True)) d"
  by (induction d) (simp add: list_all_iff)

lemma Directory_init_kinds_ok:
  assumes "Directory_init e p parent_dir hf rec depth g = (Inr d, g')"
  shows "kinds_ok d"
  unfolding kinds_ok_all_nodes
proof (rule Directory_init_all_nodes(1) [OF _ _ assms refl])
  fix p parent_dir b
  assume "Pathed_init e Directory_class p (isdir e) NotADirectoryError parent_dir False = Inr b"
  from Pathed_init_kind [OF this] show "is_dir b \<and> \<not> is_file b"
    by simp
next
  fix p parent_dir f
  assume "File_init e p parent_dir = Inr f"
  then show "file_kind f = (False, True)"
    by (rule File_init_kind)
qed

lemma Pathed_refresh_kind:
  "is_dir (snd (Pathed_refresh e b)) = is_dir b \<and> is_file (snd (Pathed_refresh e b)) = is_file b"
  by (simp add: Pathed_refresh_def Let_def)

lemma File_hash_kind: "file_kind (snd (File_hash e f)) = file_kind f"
  using calculate_hash_and_size_kind [of e f]
  by (simp add: File_hash_def Let_def split: option.splits)

lemma File_refresh_kind: "file_kind (snd (File_refresh e f)) = file_kind f"
  using Pathed_refresh_kind [of e "file_base f"]
  by (auto simp: File_refresh_def Let_def file_kind_def calculate_hash_and_size_def
           split: prod.splits option.splits)

lemma refresh_files_kind:
  "map file_kind (snd (refresh_files e refreshed fs)) = map file_kind fs"
proof (induction fs arbitrary: refreshed)
  case Nil
  then show ?case by simp
next
  case (Cons f rest)
  show ?case
  proof (cases refreshed)
    case True
    with Cons.IH [of True] show ?thesis
      by (cases "refresh_files e True rest") simp
  next
    case False
    obtain res f' where call: "File_refresh e f = (res, f')"
      by (cases "File_refresh e f")
    have k: "file_kind f' = file_kind f"
      using File_refresh_kind [of e f] call by simp
    show ?thesis
    proof (cases res)
      case (Inl err)
      with False call k show ?thesis by simp
    next
      case (Inr r)
      with False call k Cons.IH [of r] show ?thesis
        by (cases "refresh_files e r rest") simp
    qed
  qed
qed

lemma Directory_refresh_kind:
  "kinds_of (snd (Directory_refresh e d)) = kinds_of d"
  "map kinds_of (snd (refresh_sub_dirs e refreshed sds)) = map kinds_of sds"
proof (induction e d and e refreshed sds rule: Directory_refresh_refresh_sub_dirs.induct)
  case (1 e b sds fs em rec depth)
  obtain refreshed b' where pr: "Pathed_refresh e b = (refreshed, b')"
    by (cases "Pathed_refresh e b")
  have kb: "is_dir b' = is_dir b" "is_file b' = is_file b"
    using Pathed_refresh_kind [of e b] pr by simp_all
  obtain res sds' where rs: "refresh_sub_dirs e refreshed sds = (res, sds')"
    by (cases "refresh_sub_dirs e refreshed sds")
  have ks: "map kinds_of sds' = map kinds_of sds"
    using "1.IH" [OF pr [symmetric]] rs by simp
  show ?case
  proof (cases res)
    case (Inl err)
    with pr rs kb ks show ?thesis by simp
  next
    case (Inr r)
    obtain res' fs' where rf: "refresh_files e r fs = (res', fs')"
      by (cases "refresh_files e r fs")
    have "map file_kind fs' = map file_kind fs"
      using refresh_files_kind [of e r fs] rf by simp
    with Inr pr rs rf kb ks show ?thesis by simp
  qed
next
  case (2 e refreshed)
  then show ?case by simp
next
  case (3 e refreshed sub_dir rest)
  show ?case
  proof (cases refreshed)
    case True
    with "3.IH"(1) show ?thesis
      by (cases "refresh_sub_dirs e True rest") simp
  next
    case False
    obtain res sub_dir' where call: "Directory_refresh e sub_dir = (res, sub_dir')"
      by (cases "Directory_refresh e sub_dir")
    have k: "kinds_of sub_dir' = kinds_of sub_dir"
      using "3.IH"(2) [OF False] call by simp
    show ?thesis
    proof (cases res)
      case (Inl err)
      with False call k show ?thesis by simp
    next
      case (Inr r)
      from "3.IH"(3) [OF False call [symmetric] Inr] False call k Inr show ?thesis
        by (cases "refresh_sub_dirs e r rest") simp
    qed
  qed
qed

text \<open>
  C10: in a tree that the constructor has built, every directory has \<open>is_dir\<close> true and
  \<open>is_file\<close> false, and every file has \<open>is_file\<close> true and \<open>is_dir\<close> false; a file
  built on its own is tagged as a file only. \<open>refresh\<close>, on a directory or on a file, and
  a read of \<open>hash\<close> leave the tags of every node as they were, whether they return or
  raise.
\<close>

theorem kinds_fixed_at_construction:
  "(Directory_init e p parent_dir hf rec depth g = (Inr d, g') \<longrightarrow> kinds_ok d) \<and>
   (File_init e q parent_file = Inr f \<longrightarrow> file_kind f = (False, True)) \<and>
   kinds_of (snd (Directory_refresh e' d0)) = kinds_of d0 \<and>
   file_kind (snd (File_refresh e' f0)) = file_kind f0 \<and>
   file_kind (snd (File_hash e' f0)) = file_kind f0"
  using Directory_init_kinds_ok [of e p parent_dir hf rec depth g d g']
    File_init_kind [of e q parent_file f] Directory_refresh_kind(1) [of e' d0]
    File_refresh_kind [of e' f0] File_hash_kind [of e' f0]
  by blast

text \<open>C10 on the tree \<open>dir_r\<close> and the file \<open>/r/f\<close>, refreshed after the edit that
  leads to \<open>fs1\<close>.\<close>

theorem kinds_fixed_at_construction_witness:
  "Directory_init fs0 ''/r'' None False False 0 g0 =
     (Inr dir_r, \<lparr>file_count = 1, printed = [1]\<rparr>) \<and>
   kinds_ok dir_r \<and>
   File_init fs0 ''/r/f'' (Some ''/r'') = Inr file_r_f \<and>
   file_kind file_r_f = (False, True) \<and>
   kinds_of (snd (Directory_refresh fs1 dir_r)) = kinds_of dir_r \<and>
   file_kind (snd (File_refresh fs1 file_r_f)) = file_kind file_r_f \<and>
   file_kind (snd (File_hash fs1 file_r_f)) = file_kind file_r_f"
proof -
  have r: "Directory_init fs0 ''/r'' None False False 0 g0 =
      (Inr dir_r, \<lparr>file_count = 1, printed = [1]\<rparr>)"
    by (simp add: data_defs eval_defs)
  have f: "File_init fs0 ''/r/f'' (Some ''/r'') = Inr file_r_f"
    by (simp add: data_defs eval_defs)
  from kinds_fixed_at_construction
         [where e = fs0 and p = "''/r''" and parent_dir = None and hf = False and rec = False
            and depth = 0 and g = g0 and d = dir_r
            and g' = "\<lparr>file_count = 1, printed = [1]\<rparr>"
            and q = "''/r/f''" and parent_file = "Some ''/r''" and f = file_r_f
            and e' = fs1 and ?d0.0 = dir_r and ?f0.0 = file_r_f]
       r f
  show ?thesis
    by blast
qed

end
